theory Spec2Isabelle
  imports Main
begin

section \<open>Geometry\<close>

text \<open>
  Modelled from the spec: the geometry module (\<open>Point\<close>, \<open>Size\<close>, \<open>Rect\<close>) is imported by
  every source file but is not among them. The spec gives \<open>Size {width, height: integer,
  \<ge> 0}\<close> with \<open>grow\<close>, \<open>shrink\<close>, \<open>max\<close> and a zero singleton, \<open>Point {x, y}\<close> with
  \<open>offset\<close>, and \<open>Rect {origin, size}\<close> with \<open>minX/maxX/minY/maxY\<close> and intersection.
  Numbers are integers. A constructed \<open>Size\<close> keeps the invariant \<open>\<ge> 0\<close> by clamping;
  a mutable copy is the same record, and the source's direct field assignments on
  mutable copies are plain record updates. Sizes are values here: the wrapper of
  \<open>naturalSize\<close> hands out the very object it caches, and what a caller would do to
  that object is not modelled.
\<close>

record Point =
  x :: int
  y :: int

record Size =
  width :: int
  height :: int

record Rect =
  origin :: Point
  rect_size :: Size

definition Point_new :: "int \<Rightarrow> int \<Rightarrow> Point" where
  "Point_new px py = \<lparr>x = px, y = py\<rparr>"

definition Point_zero :: Point where
  "Point_zero = Point_new 0 0"

definition Point_offset :: "Point \<Rightarrow> int \<Rightarrow> int \<Rightarrow> Point" where
  "Point_offset p dx dy = Point_new (x p + dx) (y p + dy)"

definition Size_new :: "int \<Rightarrow> int \<Rightarrow> Size" where
  "Size_new w h = \<lparr>width = max 0 w, height = max 0 h\<rparr>"

definition Size_zero :: Size where
  "Size_zero = Size_new 0 0"

definition Size_shrink :: "Size \<Rightarrow> int \<Rightarrow> int \<Rightarrow> Size" where
  "Size_shrink s w h = Size_new (width s - w) (height s - h)"

definition Size_grow :: "Size \<Rightarrow> int \<Rightarrow> int \<Rightarrow> Size" where
  "Size_grow s w h = Size_new (width s + w) (height s + h)"


definition Rect_new :: "Point \<Rightarrow> Size \<Rightarrow> Rect" where
  "Rect_new p s = \<lparr>origin = p, rect_size = s\<rparr>"

definition minX :: "Rect \<Rightarrow> int" where
  "minX r = x (origin r)"

definition maxX :: "Rect \<Rightarrow> int" where
  "maxX r = x (origin r) + width (rect_size r)"

definition minY :: "Rect \<Rightarrow> int" where
  "minY r = y (origin r)"

definition maxY :: "Rect \<Rightarrow> int" where
  "maxY r = y (origin r) + height (rect_size r)"


definition Rect_includes :: "Rect \<Rightarrow> Point \<Rightarrow> bool" where
  "Rect_includes r p = (minX r \<le> x p \<and> x p < maxX r \<and> minY r \<le> y p \<and> y p < maxY r)"


section \<open>JavaScript values\<close>

text \<open>
  A property of type \<open>number | undefined\<close> is an \<open>int option\<close>. \<open>truthy\<close> is the test
  \<open>if (v)\<close> on such a value (\<open>undefined\<close> and \<open>0\<close> are falsy), \<open>nullish\<close> is \<open>v ?? d\<close>.
\<close>

definition truthy :: "int option \<Rightarrow> bool" where
  "truthy v = (case v of None \<Rightarrow> False | Some n \<Rightarrow> n \<noteq> 0)"

definition nullish :: "'a option \<Rightarrow> 'a \<Rightarrow> 'a" where
  "nullish v d = (case v of None \<Rightarrow> d | Some n \<Rightarrow> n)"

text \<open>The decimal text of an integer, as a template literal prints it.\<close>

definition digit_char :: "nat \<Rightarrow> char" where
  "digit_char d = ''0123456789'' ! d"

fun string_of_nat :: "nat \<Rightarrow> string" where
  "string_of_nat n =
     (if n < 10 then [digit_char n] else string_of_nat (n div 10) @ [digit_char (n mod 10)])"

declare string_of_nat.simps [simp del]

definition string_of_int :: "int \<Rightarrow> string" where
  "string_of_int i = (if i < 0 then CHR ''-'' # string_of_nat (nat (- i)) else string_of_nat (nat i))"

text \<open>\<open>cacheKey\<close> of View.ts: the width, the letter x and the height, as a template prints them.\<close>

definition cacheKey :: "Size \<Rightarrow> string" where
  "cacheKey s = string_of_int (width s) @ ''x'' @ string_of_int (height s)"

section \<open>View\<close>

text \<open>
  The abstract class \<open>View\<close> (View.ts, the second file of the listing that starts with
  Collapsible.ts). A private field \<open>#f\<close> of the source is the record field \<open>p_f\<close>.
  Views live in a store indexed by their identity; \<open>parent\<close> is a reference into it.
  The theme type is a parameter: the theme module is not among the sources.
\<close>

datatype dim = Num int | Fill | Natural

datatype preference = Grow | Shrink

record Edges =
  edge_top :: int
  edge_right :: int
  edge_bottom :: int
  edge_left :: int

record 't View =
  parent :: "nat option"
  p_theme :: "'t option"
  p_prevSizeCache :: "string \<rightharpoonup> Size"
  p_viewportContentSize :: Size
  p_renderedContentSize :: Size
  p_invalidateParent :: bool
  p_x :: "int option"
  p_y :: "int option"
  p_width :: "dim option"
  p_height :: "dim option"
  p_minWidth :: "int option"
  p_minHeight :: "int option"
  p_maxWidth :: "int option"
  p_maxHeight :: "int option"
  p_padding :: "Edges option"

type_synonym 't store = "nat \<Rightarrow> 't View"

text \<open>
  The constructor's \<open>Props\<close>; \<open>padding\<close> is \<open>number | Partial<Edges>\<close>. A theme given
  by the name of its purpose is looked up before it is stored: \<open>prop_theme\<close> is the
  theme after that lookup.
\<close>

datatype padding_prop = PadNumber int | PadEdges "int option" "int option" "int option" "int option"

record 't Props =
  prop_theme :: "'t option"
  prop_x :: "int option"
  prop_y :: "int option"
  prop_width :: "dim option"
  prop_height :: "dim option"
  prop_minWidth :: "int option"
  prop_minHeight :: "int option"
  prop_maxWidth :: "int option"
  prop_maxHeight :: "int option"
  prop_padding :: "padding_prop option"

definition toEdges :: "padding_prop option \<Rightarrow> Edges option" where
  "toEdges edges =
     (case edges of
        None \<Rightarrow> None
      | Some (PadNumber n) \<Rightarrow>
          (if n = 0 then None
           else Some \<lparr>edge_top = n, edge_right = n, edge_bottom = n, edge_left = n\<rparr>)
      | Some (PadEdges t r b l) \<Rightarrow>
          Some \<lparr>edge_top = nullish t 0, edge_right = nullish r 0,
                edge_bottom = nullish b 0, edge_left = nullish l 0\<rparr>)"

definition View_new :: "'t Props \<Rightarrow> 't View" where
  "View_new props =
     \<lparr>parent = None,
      p_theme = prop_theme props,
      p_prevSizeCache = Map.empty,
      p_viewportContentSize = Size_zero,
      p_renderedContentSize = Size_zero,
      p_invalidateParent = True,
      p_x = prop_x props,
      p_y = prop_y props,
      p_width = prop_width props,
      p_height = prop_height props,
      p_minWidth = prop_minWidth props,
      p_minHeight = prop_minHeight props,
      p_maxWidth = prop_maxWidth props,
      p_maxHeight = prop_maxHeight props,
      p_padding = toEdges (prop_padding props)\<rparr>"

subsection \<open>The theme accessor\<close>

text \<open>
  \<open>get theme() { return this.#theme ?? this.parent?.theme ?? Theme.plain }\<close>. The
  recursion follows \<open>parent\<close>; on a cyclic parent chain it does not return, which is the
  value \<open>None\<close>. \<open>plain\<close> stands for \<open>Theme.plain\<close>.
\<close>

partial_function (option) theme :: "'t \<Rightarrow> 't store \<Rightarrow> nat \<Rightarrow> 't option" where
  "theme plain st this =
     (case p_theme (st this) of
        Some t \<Rightarrow> Some t
      | None \<Rightarrow>
          (case parent (st this) of
             Some p \<Rightarrow> theme plain st p
           | None \<Rightarrow> Some plain))"

subsection \<open>Size resolution\<close>

text \<open>
  \<open>#restrictSize\<close> receives a thunk and memoises it (\<open>memo ??= _calcSize()\<close>). The thunk
  of the render wrapper has an effect (it fills the size cache), so thunks are state
  transformers and the memo cell is threaded with the state.
\<close>

definition calcSize :: "('s \<Rightarrow> Size \<times> 's) \<Rightarrow> Size option \<times> 's \<Rightarrow> Size \<times> (Size option \<times> 's)" where
  "calcSize calcSize0 m =
     (case fst m of
        Some memo \<Rightarrow> (memo, m)
      | None \<Rightarrow> (let (r, s') = calcSize0 (snd m) in (r, (Some r, s'))))"

definition toDimension :: "dim \<Rightarrow> int \<Rightarrow> ('m \<Rightarrow> int \<times> 'm) \<Rightarrow> 'm \<Rightarrow> int \<times> 'm" where
  "toDimension d available natural m =
     (case d of
        Fill \<Rightarrow> (available, m)
      | Natural \<Rightarrow> natural m
      | Num n \<Rightarrow> (n, m))"

definition restrictSize ::
  "('t, 'a) View_scheme \<Rightarrow> ('s \<Rightarrow> Size \<times> 's) \<Rightarrow> Size \<Rightarrow> preference \<Rightarrow> 's \<Rightarrow> Size \<times> 's" where
  "restrictSize v calcSize0 availableSize pref s0 =
     (let m0 = (None, s0);
          calcWidth = (\<lambda>m. let (c, m') = calcSize calcSize0 m in (width c, m'));
          calcHeight = (\<lambda>m. let (c, m') = calcSize calcSize0 m in (height c, m'))
      in
      if p_width v \<noteq> None \<and> p_height v \<noteq> None then
        (let (w, m1) = toDimension (the (p_width v)) (width availableSize) calcWidth m0;
             (h, m2) = toDimension (the (p_height v)) (height availableSize) calcHeight m1
         in (Size_new w h, snd m2))
      else
        (let (size0, m1) = (if pref = Shrink then calcSize calcSize0 m0 else (availableSize, m0));
             (size1, m2) =
               (case p_width v of
                  Some d \<Rightarrow>
                    (let (w, m') = toDimension d (width availableSize) calcWidth m1
                     in (size0\<lparr>width := w\<rparr>, m'))
                | None \<Rightarrow>
                    (let sa = (case p_minWidth v of
                                 Some mn \<Rightarrow> size0\<lparr>width := max mn (width size0)\<rparr>
                               | None \<Rightarrow> size0);
                         sb = (case p_maxWidth v of
                                 Some mx \<Rightarrow> sa\<lparr>width := min mx (width sa)\<rparr>
                               | None \<Rightarrow> sa)
                     in (sb, m1)));
             (size2, m3) =
               (case p_height v of
                  Some d \<Rightarrow>
                    (let (h, m') = toDimension d (height availableSize) calcHeight m2
                     in (size1\<lparr>height := h\<rparr>, m'))
                | None \<Rightarrow>
                    (let sa = (case p_minHeight v of
                                 Some mn \<Rightarrow> size1\<lparr>height := max mn (height size1)\<rparr>
                               | None \<Rightarrow> size1);
                         sb = (case p_maxHeight v of
                                 Some mx \<Rightarrow> sa\<lparr>height := min mx (height sa)\<rparr>
                               | None \<Rightarrow> sa)
                     in (sb, m2)))
         in (size2, snd m3)))"

text \<open>
  \<open>#naturalSizeWrap\<close>: the wrapper installed over the subclass's \<open>naturalSize\<close>, which is
  the parameter \<open>naturalSize0\<close>. The parameter \<open>availableSize\<close> of the source is reassigned
  when the view has an offset; \<open>availableSize'\<close> is its value from then on, and it is the
  one the source passes to \<open>cacheKey\<close> when it stores the result.
\<close>

definition naturalSizeWrap ::
  "(Size \<Rightarrow> Size) \<Rightarrow> 't View \<Rightarrow> Size \<Rightarrow> Size \<times> 't View" where
  "naturalSizeWrap naturalSize0 v availableSize =
     (case p_prevSizeCache v (cacheKey availableSize) of
        Some cached \<Rightarrow> (cached, v)
      | None \<Rightarrow>
          (let availableSize' =
                 (if truthy (p_x v) \<or> truthy (p_y v)
                  then Size_shrink availableSize (nullish (p_x v) 0) (nullish (p_y v) 0)
                  else availableSize);
               (size0, u) =
                 restrictSize v
                   (\<lambda>u. (let s = naturalSize0 availableSize'
                         in (case p_padding v of
                               Some p \<Rightarrow> Size_grow s (edge_left p + edge_right p)
                                          (edge_top p + edge_bottom p)
                             | None \<Rightarrow> s), u))
                   availableSize' Shrink ();
               size1 = (if truthy (p_x v) then size0\<lparr>width := width size0 + nullish (p_x v) 0\<rparr>
                        else size0);
               size2 = (if truthy (p_y v) then size1\<lparr>height := height size1 + nullish (p_y v) 0\<rparr>
                        else size1)
           in (size2, v\<lparr>p_prevSizeCache := (p_prevSizeCache v)(cacheKey availableSize' \<mapsto> size2)\<rparr>)))"

subsection \<open>Invalidation\<close>

text \<open>
  \<open>invalidateSize() { this.#prevSizeCache = new Map();
  if (this.#invalidateParent) { this.parent?.invalidateSize() } }\<close>.
  On a cyclic parent chain the recursion does not return: the value \<open>None\<close>.
\<close>

partial_function (option) invalidateSize :: "'t store \<Rightarrow> nat \<Rightarrow> 't store option" where
  "invalidateSize st this =
     (let st1 = st(this := (st this)\<lparr>p_prevSizeCache := Map.empty\<rparr>)
      in if p_invalidateParent (st1 this)
         then (case parent (st1 this) of
                 Some p \<Rightarrow> invalidateSize st1 p
               | None \<Rightarrow> Some st1)
         else Some st1)"

subsection \<open>The render wrapper\<close>

text \<open>
  \<open>#renderWrap\<close>, up to its call of \<open>viewport._render(this, rect, render)\<close>: the result is
  the store at that call and the rectangle passed. Of the viewport only \<open>contentSize\<close>
  is read. \<open>renderWrap_detect\<close> is the first statement of the wrapper, the comparison
  with the content size recorded on the previous frame and the invalidation between
  the two assignments of \<open>#invalidateParent\<close>.
\<close>

definition renderWrap_detect :: "'t store \<Rightarrow> nat \<Rightarrow> Size \<Rightarrow> 't store option" where
  "renderWrap_detect st this viewport_contentSize =
     (if width (p_viewportContentSize (st this)) \<noteq> width viewport_contentSize \<or>
         height (p_viewportContentSize (st this)) \<noteq> height viewport_contentSize
      then (case invalidateSize (st(this := (st this)\<lparr>p_invalidateParent := False\<rparr>)) this of
              None \<Rightarrow> None
            | Some st' \<Rightarrow> Some (st'(this := (st' this)\<lparr>p_invalidateParent := True\<rparr>)))
      else Some st)"

definition renderWrap ::
  "(Size \<Rightarrow> Size) \<Rightarrow> 't store \<Rightarrow> nat \<Rightarrow> Size \<Rightarrow> ('t store \<times> Rect) option" where
  "renderWrap naturalSize0 st this viewport_contentSize =
     (case renderWrap_detect st this viewport_contentSize of
        None \<Rightarrow> None
      | Some st1 \<Rightarrow>
          (let st2 = st1(this := (st1 this)\<lparr>p_viewportContentSize := viewport_contentSize\<rparr>);
               v = st2 this;
               (origin0, contentSize0) =
                 (if truthy (p_x v) \<or> truthy (p_y v)
                  then (let p = Point_new (nullish (p_x v) 0) (nullish (p_y v) 0)
                        in (p, viewport_contentSize
                                 \<lparr>width := width viewport_contentSize - x p,
                                  height := height viewport_contentSize - y p\<rparr>))
                  else (Point_zero, viewport_contentSize));
               (origin1, contentSize1) =
                 (case p_padding v of
                    Some e \<Rightarrow>
                      (Point_offset origin0 (edge_left e) (edge_top e),
                       contentSize0
                         \<lparr>width := width contentSize0 - (edge_left e + edge_right e),
                          height := height contentSize0 - (edge_top e + edge_bottom e)\<rparr>)
                  | None \<Rightarrow> (origin0, contentSize0));
               (rendered, v') =
                 restrictSize v (\<lambda>u. naturalSizeWrap naturalSize0 u contentSize1) contentSize1 Grow v;
               st3 = st2(this := v'\<lparr>p_renderedContentSize := rendered\<rparr>)
           in Some (st3, Rect_new origin1 rendered)))"

section \<open>Numbers\<close>

text \<open>
  \<open>~~(a / b)\<close> on integers: the quotient is truncated towards zero and reduced to a
  signed 32-bit integer; a division by zero gives an infinity or NaN, which \<open>~~\<close> maps
  to 0.
\<close>

definition toInt32 :: "int \<Rightarrow> int" where
  "toInt32 n = (n + 2 ^ 31) mod 2 ^ 32 - 2 ^ 31"

definition trunc_div :: "int \<Rightarrow> int \<Rightarrow> int" where
  "trunc_div a b = sgn a * sgn b * (\<bar>a\<bar> div \<bar>b\<bar>)"

definition tilde_tilde_div :: "int \<Rightarrow> int \<Rightarrow> int" where
  "tilde_tilde_div a b = (if b = 0 then 0 else toInt32 (trunc_div a b))"

section \<open>Strings\<close>

text \<open>\<open>text.split('\n')\<close> and \<open>lines.join('\n')\<close>.\<close>

fun split_nl :: "string \<Rightarrow> string list" where
  "split_nl [] = [[]]"
| "split_nl (c # cs) =
     (if c = CHR 0x0A then [] # split_nl cs
      else (case split_nl cs of
              [] \<Rightarrow> [[c]]
            | l # ls \<Rightarrow> (c # l) # ls))"

fun join_nl :: "string list \<Rightarrow> string" where
  "join_nl [] = []"
| "join_nl [l] = l"
| "join_nl (l # ls) = l @ CHR 0x0A # join_nl ls"

section \<open>Collaborators outside the sources\<close>

text \<open>
  The modules \<open>sys\<close> (\<open>unicode.lineWidth\<close>, \<open>unicode.printableChars\<close>,
  \<open>unicode.charWidth\<close>), \<open>Style\<close> (\<open>Style.fromSGR\<close>, \<open>merge\<close>), \<open>Theme\<close> (\<open>text()\<close>) and
  \<open>fonts\<close> (\<open>FONTS\<close>) are imported by Text.ts and are not among the sources. They are
  parameters, collected in one record. \<open>printableChars\<close> cuts a line into its printable
  units and escape sequences, each a string; \<open>isWhitespace\<close> is \<open>char.match(/\s/)\<close>.
\<close>

type_synonym FontFamily = string

record ('t, 'style) Env =
  lineWidth :: "string \<Rightarrow> int"
  printableChars :: "string \<Rightarrow> string list"
  charWidth :: "string \<Rightarrow> int"
  isWhitespace :: "string \<Rightarrow> bool"
  fromSGR :: "string \<Rightarrow> 'style"
  merge :: "'style \<Rightarrow> 'style option \<Rightarrow> 'style"
  theme_text :: "'t \<Rightarrow> 'style"
  FONTS :: "FontFamily \<Rightarrow> (char \<rightharpoonup> string) option"

section \<open>Viewport\<close>

text \<open>
  Modelled from the spec: the class \<open>Viewport\<close> is not among the sources. The spec
  (section 4.2) gives it a \<open>contentSize\<close>, a \<open>visibleRect\<close>, a \<open>parentRect\<close> and a pen;
  \<open>write\<close> paints a text from a point and drops, cell by cell, what lies outside
  \<open>visibleRect\<close>; \<open>usingPen\<close> sets a pen for a body and restores the previous one;
  \<open>replacePen\<close> changes the pen mid-stream; \<open>clipped\<close> makes the nested viewport of a
  rectangle, whose \<open>visibleRect\<close> is the intersection with the current one, and which is
  empty when nothing is visible. The painted cells are kept in painting order, with
  the position in the frame of the viewport that painted them, the text of the cell
  and its style.
\<close>

record 'style Viewport =
  contentSize :: Size
  visibleRect :: Rect
  parentRect :: Rect
  pen :: 'style
  cells :: "(Point \<times> string \<times> 'style) list"


fun write_cells ::
  "(string \<Rightarrow> int) \<Rightarrow> Rect \<Rightarrow> 'style \<Rightarrow> string list \<Rightarrow> Point \<Rightarrow>
   (Point \<times> string \<times> 'style) list \<Rightarrow> (Point \<times> string \<times> 'style) list" where
  "write_cells cw vis st [] p cs = cs"
| "write_cells cw vis st (c # rest) p cs =
     write_cells cw vis st rest (p\<lparr>x := x p + cw c\<rparr>)
       (if Rect_includes vis p then cs @ [(p, c, st)] else cs)"

definition Viewport_write ::
  "('t, 'style) Env \<Rightarrow> string \<Rightarrow> Point \<Rightarrow> 'style option \<Rightarrow> 'style Viewport \<Rightarrow> 'style Viewport" where
  "Viewport_write env text point style vp =
     vp\<lparr>cells := write_cells (charWidth env) (visibleRect vp) (nullish style (pen vp))
                    (printableChars env text) point (cells vp)\<rparr>"

definition Viewport_replacePen :: "'style \<Rightarrow> 'style Viewport \<Rightarrow> 'style Viewport" where
  "Viewport_replacePen style vp = vp\<lparr>pen := style\<rparr>"




section \<open>Text\<close>

text \<open>
  The class \<open>Text\<close> of Text.ts. Its \<open>View\<close> part is the view \<open>this\<close> of the store; the
  record holds the fields the subclass adds. \<open>Alignment\<close> is declared in a module that
  is not among the sources; \<open>render\<close> tells \<open>left\<close>, \<open>center\<close> and anything else apart.
\<close>

datatype Alignment = AlignLeft | AlignCenter | AlignRight

record 'style Text =
  p_style :: "'style option"
  p_text :: string
  p_lines :: "(string \<times> int) list"
  p_alignment :: Alignment
  p_wrap :: bool
  p_font :: FontFamily

definition DEFAULTS_font :: FontFamily where
  "DEFAULTS_font = ''default''"

definition Text_updateLines ::
  "('t, 'style) Env \<Rightarrow> 'style Text \<Rightarrow> 't store \<Rightarrow> nat \<Rightarrow>
   string option \<Rightarrow> string list option \<Rightarrow> FontFamily option \<Rightarrow>
   ('style Text \<times> 't store) option" where
  "Text_updateLines env t st this text lines font =
     (let t1 = t\<lparr>p_font := nullish font DEFAULTS_font\<rparr>;
          fontMap = (case font of
                       None \<Rightarrow> None
                     | Some f \<Rightarrow> (if f = [] then None else FONTS env f));
          (t2, lines') =
            (case text of
               Some tx \<Rightarrow> (t1\<lparr>p_text := tx\<rparr>, if tx = [] then [] else split_nl tx)
             | None \<Rightarrow>
                 (case lines of
                    Some ls \<Rightarrow> (t1\<lparr>p_text := join_nl ls\<rparr>, ls)
                  | None \<Rightarrow> (t1\<lparr>p_text := []\<rparr>, [])));
          t3 = t2\<lparr>p_lines :=
                    map (\<lambda>line.
                          (let line' = (case fontMap of
                                          Some fm \<Rightarrow>
                                            concat (map (\<lambda>c. case fm c of
                                                               Some s \<Rightarrow> s
                                                             | None \<Rightarrow> [c]) line)
                                        | None \<Rightarrow> line)
                           in (line', lineWidth env line')))
                      lines'\<rparr>
      in (case invalidateSize st this of
            None \<Rightarrow> None
          | Some st' \<Rightarrow> Some (t3, st')))"

text \<open>The setter \<open>set text(value)\<close>.\<close>

definition Text_set_text ::
  "('t, 'style) Env \<Rightarrow> 'style Text \<Rightarrow> 't store \<Rightarrow> nat \<Rightarrow> string \<Rightarrow>
   ('style Text \<times> 't store) option" where
  "Text_set_text env t st this v =
     (if p_text t = v then Some (t, st)
      else Text_updateLines env t st this (Some v) (Some (split_nl v)) (Some (p_font t)))"

text \<open>\<open>naturalSize(available)\<close>: a \<open>reduce\<close> over the lines, from \<open>Size.zero.mutableCopy()\<close>.\<close>

definition Text_naturalSize :: "'style Text \<Rightarrow> Size \<Rightarrow> Size" where
  "Text_naturalSize t available =
     foldl (\<lambda>size (line, w).
              if p_wrap t then
                (let lineHeight = 1 + tilde_tilde_div w (width available)
                 in size\<lparr>width := width available, height := height size + lineHeight\<rparr>)
              else size\<lparr>width := max (width size) w, height := height size + 1\<rparr>)
       Size_zero (p_lines t)"

text \<open>
  \<open>render(viewport)\<close>. The state of the loops is the write position, the flag
  \<open>didWrap\<close> and the viewport.
\<close>

record 'style render_state =
  point :: Point
  didWrap :: bool
  viewport :: "'style Viewport"

definition Text_render_char ::
  "('t, 'style) Env \<Rightarrow> 'style Text \<Rightarrow> string \<Rightarrow> 'style render_state \<Rightarrow> 'style render_state" where
  "Text_render_char env t char s =
     (let w = charWidth env char in
      if w = 0 then s\<lparr>viewport := Viewport_replacePen (fromSGR env char) (viewport s)\<rparr>
      else
        (let s1 = (if p_wrap t \<and> x (point s) \<ge> width (contentSize (viewport s))
                   then s\<lparr>didWrap := True, point := \<lparr>x = 0, y = y (point s) + 1\<rparr>\<rparr>
                   else s)
         in if didWrap s1 \<and> isWhitespace env char then s1
            else
              (let s2 = s1\<lparr>didWrap := False\<rparr>;
                   s3 = (if x (point s2) \<ge> minX (visibleRect (viewport s2)) \<and>
                            x (point s2) + w - 1 < maxX (visibleRect (viewport s2))
                         then s2\<lparr>viewport := Viewport_write env char (point s2) None (viewport s2)\<rparr>
                         else s2)
               in s3\<lparr>point := (point s3)\<lparr>x := x (point s3) + w\<rparr>\<rparr>)))"

definition Text_render_chars ::
  "('t, 'style) Env \<Rightarrow> 'style Text \<Rightarrow> string list \<Rightarrow> 'style render_state \<Rightarrow> 'style render_state" where
  "Text_render_chars env t chars s = fold (Text_render_char env t) chars s"



section \<open>Dropdown\<close>



section \<open>Accordion\<close>

text \<open>
  The classes \<open>Accordion\<close> and \<open>AccordionSection\<close> of Accordion.ts. Sections are objects
  with an identity: they live in a heap indexed by it, \<open>next_id\<close> is the first identity
  not yet given to an object. The only callback ever stored in \<open>onClick\<close> by these
  classes is the accordion's \<open>#sectionDidChange\<close>. A child of the accordion is a section
  or some other view (\<open>sections\<close> filters by \<open>instanceof AccordionSection\<close>).

  Modelled from the spec: \<open>Container.add\<close> is not among the sources; it appends the child
  to the ordered children (spec, section 4.3).
\<close>

datatype callback = SectionDidChange

record TitleStyle =
  underline :: bool
  bold :: bool

record AccordionSection =
  p_isOpen :: bool
  onClick :: "callback option"
  titleView_style :: TitleStyle

datatype child = Section nat | OtherView nat

record Accordion =
  p_multiple :: bool
  children :: "child list"
  heap :: "nat \<Rightarrow> AccordionSection"
  next_id :: nat

definition titleStyle :: "AccordionSection \<Rightarrow> TitleStyle" where
  "titleStyle s = \<lparr>underline = True, bold = p_isOpen s\<rparr>"

text \<open>
  The constructor of \<open>AccordionSection\<close>: \<open>#update({isOpen})\<close> runs last and stores
  \<open>undefined\<close> in \<open>onClick\<close>.
\<close>

definition AccordionSection_new :: "bool option \<Rightarrow> AccordionSection" where
  "AccordionSection_new isOpen =
     (let s = \<lparr>p_isOpen = nullish isOpen False, onClick = None,
                titleView_style = \<lparr>underline = True, bold = nullish isOpen False\<rparr>\<rparr>
      in s\<lparr>p_isOpen := nullish isOpen False, onClick := None\<rparr>)"

definition Accordion_new :: "bool option \<Rightarrow> (nat \<Rightarrow> AccordionSection) \<Rightarrow> nat \<Rightarrow> Accordion" where
  "Accordion_new multiple h n =
     \<lparr>p_multiple = nullish multiple False, children = [], heap = h, next_id = n\<rparr>"

definition sections :: "Accordion \<Rightarrow> nat list" where
  "sections a = concat (map (\<lambda>c. case c of Section i \<Rightarrow> [i] | OtherView _ \<Rightarrow> []) (children a))"

text \<open>
  The setter \<open>set isOpen(value)\<close> of a section calls \<open>onClick\<close>, that is the accordion's
  \<open>#sectionDidChange\<close>, whose loop calls \<open>close()\<close>, that is the setter again.
\<close>

function AccordionSection_set_isOpen :: "Accordion \<Rightarrow> nat \<Rightarrow> bool \<Rightarrow> Accordion"
  and Accordion_sectionDidChange :: "Accordion \<Rightarrow> nat \<Rightarrow> bool \<Rightarrow> Accordion"
  and sectionDidChange_loop :: "Accordion \<Rightarrow> nat \<Rightarrow> nat list \<Rightarrow> Accordion"
where
  "AccordionSection_set_isOpen a this v =
     (if p_isOpen (heap a this) = v then a
      else
        (let s1 = (heap a this)\<lparr>p_isOpen := v\<rparr>;
             s2 = s1\<lparr>titleView_style := titleStyle s1\<rparr>;
             a1 = a\<lparr>heap := (heap a)(this := s2)\<rparr>
         in (case onClick s2 of
               None \<Rightarrow> a1
             | Some SectionDidChange \<Rightarrow> Accordion_sectionDidChange a1 this v)))"
| "Accordion_sectionDidChange a toggleSection isOpen =
     (if p_multiple a \<or> \<not> isOpen then a
      else sectionDidChange_loop a toggleSection (sections a))"
| "sectionDidChange_loop a toggleSection [] = a"
| "sectionDidChange_loop a toggleSection (section # rest) =
     (if toggleSection = section then sectionDidChange_loop a toggleSection rest
      else sectionDidChange_loop (AccordionSection_set_isOpen a section False) toggleSection rest)"
  by pat_completeness auto
termination
  by (relation "measure (\<lambda>c. case c of
                   Inl (a, this, v) \<Rightarrow> (if v then 4 + length (sections a) else 1)
                 | Inr (Inl (a, t, v)) \<Rightarrow> (if v then 3 + length (sections a) else 0)
                 | Inr (Inr (a, t, l)) \<Rightarrow> 2 + length l)")
     (auto simp add: sections_def split: callback.splits)

definition Container_add :: "Accordion \<Rightarrow> child \<Rightarrow> Accordion" where
  "Container_add a c = a\<lparr>children := children a @ [c]\<rparr>"

text \<open>\<open>new AccordionSection({..., isOpen})\<close>: a new object of the heap.\<close>

definition AccordionSection_construct :: "Accordion \<Rightarrow> bool option \<Rightarrow> nat \<times> Accordion" where
  "AccordionSection_construct a isOpen =
     (next_id a,
      a\<lparr>heap := (heap a)(next_id a := AccordionSection_new isOpen), next_id := Suc (next_id a)\<rparr>)"

text \<open>\<open>AccordionSection.create(title, view)\<close> passes no \<open>isOpen\<close>.\<close>

definition AccordionSection_create :: "Accordion \<Rightarrow> nat \<times> Accordion" where
  "AccordionSection_create a = AccordionSection_construct a None"

text \<open>\<open>addSection(section)\<close>, and \<open>addSection(title, view)\<close> which creates the section first.\<close>

definition Accordion_addSection :: "Accordion \<Rightarrow> nat \<Rightarrow> Accordion" where
  "Accordion_addSection a sectionView =
     (let a1 = a\<lparr>heap := (heap a)(sectionView := (heap a sectionView)\<lparr>onClick := Some SectionDidChange\<rparr>)\<rparr>;
          a2 = (if \<not> p_multiple a1 \<and> p_isOpen (heap a1 sectionView)
                then fold (\<lambda>section b. AccordionSection_set_isOpen b section False) (sections a1) a1
                else a1)
      in Container_add a2 (Section sectionView))"

definition Accordion_addSection_titled :: "Accordion \<Rightarrow> Accordion" where
  "Accordion_addSection_titled a =
     (let (sectionView, a1) = AccordionSection_create a in Accordion_addSection a1 sectionView)"

text \<open>
  \<open>AccordionSection.receiveMouse(event)\<close>. The event module is not among the sources;
  of an event only \<open>isMouseClicked(event)\<close> is read. \<open>super.receiveMouse\<close> belongs to
  \<open>Container\<close>; the private field \<open>#isOpen\<close> is out of its reach.
\<close>

datatype MouseEvent = MouseEvent (isMouseClicked: bool)

definition AccordionSection_receiveMouse :: "Accordion \<Rightarrow> nat \<Rightarrow> MouseEvent \<Rightarrow> Accordion" where
  "AccordionSection_receiveMouse a this event =
     (if isMouseClicked event then
        (let s1 = (heap a this)\<lparr>p_isOpen := \<not> p_isOpen (heap a this)\<rparr>;
             s2 = s1\<lparr>titleView_style := titleStyle s1\<rparr>;
             a1 = a\<lparr>heap := (heap a)(this := s2)\<rparr>
         in (case onClick s2 of
               None \<Rightarrow> a1
             | Some SectionDidChange \<Rightarrow> Accordion_sectionDidChange a1 this (p_isOpen s2)))
      else a)"

text \<open>
  What a program does to an accordion: it constructs sections, adds sections, and the
  dispatcher delivers mouse events to the accordion's sections. An operation that names
  an object that does not exist, or delivers an event to a section that is not the
  accordion's, does nothing.
\<close>

datatype accordion_op =
    NewSection "bool option"
  | AddSectionTitled
  | AddSection nat
  | ReceiveMouse nat MouseEvent

fun apply_op :: "Accordion \<Rightarrow> accordion_op \<Rightarrow> Accordion" where
  "apply_op a (NewSection isOpen) = snd (AccordionSection_construct a isOpen)"
| "apply_op a AddSectionTitled = Accordion_addSection_titled a"
| "apply_op a (AddSection i) = (if i < next_id a then Accordion_addSection a i else a)"
| "apply_op a (ReceiveMouse i event) =
     (if i \<in> set (sections a) then AccordionSection_receiveMouse a i event else a)"

definition run_ops :: "Accordion \<Rightarrow> accordion_op list \<Rightarrow> Accordion" where
  "run_ops a ops = foldl apply_op a ops"

definition open_sections :: "Accordion \<Rightarrow> nat list" where
  "open_sections a = filter (\<lambda>i. p_isOpen (heap a i)) (remdups (sections a))"

section \<open>Notions used in the statements\<close>

subsection \<open>Parent chains\<close>

text \<open>
  \<open>ancestors_are st i ps\<close>: following \<open>parent\<close> from the view \<open>i\<close> visits exactly the views
  \<open>ps\<close> and ends at a view without parent. \<open>nearest_override\<close> reads the spec's words for
  the theme accessor on such a chain: the first override met. \<open>invalidated_views\<close> are
  the views of the chain that an invalidation reaches: it goes on to the parent as long
  as \<open>#invalidateParent\<close> is set.
\<close>

fun ancestors_are :: "'t store \<Rightarrow> nat \<Rightarrow> nat list \<Rightarrow> bool" where
  "ancestors_are st i [] = (parent (st i) = None)"
| "ancestors_are st i (p # ps) = (parent (st i) = Some p \<and> ancestors_are st p ps)"

fun nearest_override :: "'t store \<Rightarrow> nat list \<Rightarrow> 't option" where
  "nearest_override st [] = None"
| "nearest_override st (i # rest) =
     (case p_theme (st i) of Some t \<Rightarrow> Some t | None \<Rightarrow> nearest_override st rest)"

definition cleared :: "'t View \<Rightarrow> 't View" where
  "cleared v = v\<lparr>p_prevSizeCache := Map.empty\<rparr>"

fun invalidated_views :: "'t store \<Rightarrow> nat list \<Rightarrow> nat list" where
  "invalidated_views st [] = []"
| "invalidated_views st (i # rest) =
     i # (if p_invalidateParent (st i) then invalidated_views st rest else [])"

subsection \<open>Sound caches\<close>

text \<open>
  \<open>cache_sound\<close>: every entry of the cache is what the wrapper computes for the entry's
  key on an empty cache. \<open>fill_cache\<close>: every entry of the cache has the width of the
  size it is stored for. Both hold of the empty cache of a new view.
\<close>

definition cache_sound :: "(Size \<Rightarrow> Size) \<Rightarrow> 't View \<Rightarrow> bool" where
  "cache_sound ns v =
     (\<forall>A s. p_prevSizeCache v (cacheKey A) = Some s \<longrightarrow>
            s = fst (naturalSizeWrap ns (cleared v) A))"

definition fill_cache :: "'t View \<Rightarrow> bool" where
  "fill_cache v =
     (\<forall>A s. 0 \<le> width A \<and> p_prevSizeCache v (cacheKey A) = Some s \<longrightarrow> width s = width A)"

subsection \<open>Painted cells without their styles\<close>

definition erase_style :: "(Point \<times> string \<times> 'style) list \<Rightarrow> (Point \<times> string) list" where
  "erase_style cs = map (\<lambda>(p, c, s). (p, c)) cs"

definition same_geometry :: "'style render_state \<Rightarrow> 'style render_state \<Rightarrow> bool" where
  "same_geometry s s' =
     (point s = point s' \<and> didWrap s = didWrap s'
      \<and> contentSize (viewport s) = contentSize (viewport s')
      \<and> visibleRect (viewport s) = visibleRect (viewport s')
      \<and> erase_style (cells (viewport s)) = erase_style (cells (viewport s')))"

subsection \<open>Accordion sections\<close>

text \<open>
  What \<open>close()\<close> does to a section, and the invariant of an accordion that does not allow
  several open sections: every section of it calls back \<open>#sectionDidChange\<close> and exists,
  and two open sections of it are the same section.
\<close>

definition closed_section :: "AccordionSection \<Rightarrow> AccordionSection" where
  "closed_section s =
     (if p_isOpen s then s\<lparr>p_isOpen := False, titleView_style := \<lparr>underline = True, bold = False\<rparr>\<rparr>
      else s)"

definition accordion_inv :: "Accordion \<Rightarrow> bool" where
  "accordion_inv a =
     (\<not> p_multiple a
      \<and> (\<forall>i \<in> set (sections a). onClick (heap a i) = Some SectionDidChange \<and> i < next_id a)
      \<and> (\<forall>i \<in> set (sections a). \<forall>j \<in> set (sections a).
            p_isOpen (heap a i) \<and> p_isOpen (heap a j) \<longrightarrow> i = j))"

section \<open>Example objects\<close>

text \<open>Concrete views, texts, viewports and collaborators, used to run the definitions.\<close>

definition no_props :: "string Props" where
  "no_props = \<lparr>prop_theme = None, prop_x = None, prop_y = None, prop_width = None,
     prop_height = None, prop_minWidth = None, prop_minHeight = None, prop_maxWidth = None,
     prop_maxHeight = None, prop_padding = None\<rparr>"

definition example_text :: "string Text" where
  "example_text = \<lparr>p_style = None, p_text = ''abcd'', p_lines = [(''abcd'', 4)],
     p_alignment = AlignLeft, p_wrap = False, p_font = ''default''\<rparr>"

definition offset_fill_view :: "int \<Rightarrow> string View" where
  "offset_fill_view dx = View_new (no_props\<lparr>prop_x := Some dx, prop_width := Some Fill\<rparr>)"

definition fill_view :: "string View" where
  "fill_view = View_new (no_props\<lparr>prop_y := Some 1, prop_width := Some Fill\<rparr>)"


definition example_view :: "nat option \<Rightarrow> string option \<Rightarrow> string View" where
  "example_view par th =
     (View_new (no_props\<lparr>prop_theme := th\<rparr>))
       \<lparr>parent := par, p_prevSizeCache := [''10x5'' \<mapsto> Size_new 10 5]\<rparr>"

text \<open>The view 0 is a child of the view 1, which is a child of the view 2; 3 is alone.\<close>

definition example_store :: "string store" where
  "example_store =
     (\<lambda>i. example_view None None)
       (0 := example_view (Some 1) None,
        1 := example_view (Some 2) None,
        2 := example_view None (Some ''dark''))"

definition anchor_vp :: "int \<Rightarrow> int \<Rightarrow> string Viewport" where
  "anchor_vp py ph =
     \<lparr>contentSize = Size_new 20 10,
      visibleRect = Rect_new Point_zero (Size_new 20 10),
      parentRect = Rect_new (Point_new 0 py) (Size_new 5 ph),
      pen = ''plain'', cells = []\<rparr>"

text \<open>
  Collaborators for the examples: a unit that starts with the escape character has
  width 0 and is its own style; every other unit has width 1.
\<close>

definition example_charWidth :: "string \<Rightarrow> int" where
  "example_charWidth c = (case c of [] \<Rightarrow> 0 | h # _ \<Rightarrow> if h = CHR 0x1B then 0 else 1)"

definition example_env :: "(string, string) Env" where
  "example_env =
     \<lparr>lineWidth = (\<lambda>l. int (length l)),
      printableChars = (\<lambda>l. map (\<lambda>c. [c]) l),
      charWidth = example_charWidth,
      isWhitespace = (\<lambda>c. c = '' ''),
      fromSGR = (\<lambda>c. c),
      merge = (\<lambda>s o'. nullish o' s),
      theme_text = (\<lambda>t. t),
      FONTS = (\<lambda>f. None)\<rparr>"

definition bold_token :: string where
  "bold_token = CHR 0x1B # ''[1m''"

definition line_start :: "string render_state" where
  "line_start = \<lparr>point = Point_new 0 0, didWrap = False, viewport = anchor_vp 0 1\<rparr>"


definition example_ops :: "accordion_op list" where
  "example_ops =
     [NewSection (Some True), AddSectionTitled, AddSection 0,
      ReceiveMouse 1 (MouseEvent True), NewSection (Some True), AddSection 2,
      ReceiveMouse 0 (MouseEvent True)]"

section \<open>The size cache of a view\<close>

lemmas size_eval = View_new_def no_props_def toEdges_def naturalSizeWrap_def restrictSize_def
  toDimension_def calcSize_def truthy_def nullish_def Size_new_def Size_zero_def Size_shrink_def
  Size_grow_def cacheKey_def string_of_int_def string_of_nat.simps digit_char_def Let_def

lemma calcSize_cases:
  "calcSize f (None, s) = (fst (f s), (Some (fst (f s)), snd (f s)))"
  "calcSize f (Some c, s) = (c, (Some c, s))"
  by (simp_all add: calcSize_def split: prod.splits)

text \<open>The thunk runs at most once: the state after is the state before, or the thunk's.\<close>

lemma restrictSize_state:
  "snd (restrictSize v f A pref s) = s \<or> snd (restrictSize v f A pref s) = snd (f s)"
  apply (cases "p_width v"; cases "p_height v"; cases pref)
  apply (auto simp add: restrictSize_def toDimension_def calcSize_cases Let_def
           split: prod.splits dim.splits option.splits)
  done


lemma naturalSizeWrap_hit:
  "p_prevSizeCache v (cacheKey A) = Some c \<Longrightarrow> naturalSizeWrap ns v A = (c, v)"
  by (simp add: naturalSizeWrap_def)

text \<open>The wrapper changes no field of the view but the cache.\<close>

lemma naturalSizeWrap_fields:
  "snd (naturalSizeWrap ns v A) =
     v\<lparr>p_prevSizeCache := p_prevSizeCache (snd (naturalSizeWrap ns v A))\<rparr>"
  by (simp add: naturalSizeWrap_def Let_def split: option.splits prod.splits)

text \<open>
  A view without offset stores a result under the key of the size it was asked for, so
  a second call with the same size returns the same result from the cache, and
  leaves the view as it is.
\<close>

lemma naturalSizeWrap_no_offset_stores:
  assumes "\<not> truthy (p_x v)" and "\<not> truthy (p_y v)"
  shows "p_prevSizeCache (snd (naturalSizeWrap ns v A)) (cacheKey A) =
           Some (fst (naturalSizeWrap ns v A))"
  using assms
  by (simp add: naturalSizeWrap_def Let_def case_prod_beta split: option.splits)

lemma naturalSizeWrap_twice_no_offset:
  assumes "\<not> truthy (p_x v)" and "\<not> truthy (p_y v)"
  shows "naturalSizeWrap ns (snd (naturalSizeWrap ns v A)) A =
           (fst (naturalSizeWrap ns v A), snd (naturalSizeWrap ns v A))"
  using naturalSizeWrap_no_offset_stores [OF assms, of ns A]
  by (rule naturalSizeWrap_hit)

subsection \<open>The cache key\<close>

lemma digit_char_inj:
  assumes "a < 10" and "b < 10" and "digit_char a = digit_char b"
  shows "a = b"
proof -
  have d: "distinct ''0123456789''" by simp
  have l: "length ''0123456789'' = 10" by simp
  show ?thesis
    using assms nth_eq_iff_index_eq [OF d, of a b]
    by (simp add: digit_char_def)
qed

lemma digit_char_digit: "d < 10 \<Longrightarrow> digit_char d \<in> set ''0123456789''"
  unfolding digit_char_def by (rule nth_mem) simp

lemma string_of_nat_nonempty: "string_of_nat n \<noteq> []"
  by (subst string_of_nat.simps) simp

lemma string_of_nat_digits: "set (string_of_nat n) \<subseteq> set ''0123456789''"
proof (induction n rule: string_of_nat.induct)
  case (1 n)
  show ?case
  proof (cases "n < 10")
    case True
    then show ?thesis
      using digit_char_digit [of n] by (subst string_of_nat.simps) simp
  next
    case False
    have "n mod 10 < 10" by simp
    then have "digit_char (n mod 10) \<in> set ''0123456789''" by (rule digit_char_digit)
    then show ?thesis
      using False "1.IH" by (subst string_of_nat.simps) simp
  qed
qed

lemma string_of_nat_inj: "string_of_nat m = string_of_nat n \<Longrightarrow> m = n"
proof (induction m arbitrary: n rule: string_of_nat.induct)
  case (1 m)
  show ?case
  proof (cases "m < 10")
    case True
    show ?thesis
    proof (cases "n < 10")
      case n: True
      from "1.prems" True n have "digit_char m = digit_char n"
        by (simp add: string_of_nat.simps [of m] string_of_nat.simps [of n])
      then show ?thesis using True n by (rule digit_char_inj [rotated 2])
    next
      case n: False
      from "1.prems" True n have "string_of_nat (n div 10) = []"
        by (simp add: string_of_nat.simps [of m] string_of_nat.simps [of n])
      then show ?thesis using string_of_nat_nonempty by blast
    qed
  next
    case False
    show ?thesis
    proof (cases "n < 10")
      case n: True
      from "1.prems" False n have "string_of_nat (m div 10) = []"
        by (simp add: string_of_nat.simps [of m] string_of_nat.simps [of n])
      then show ?thesis using string_of_nat_nonempty by blast
    next
      case n: False
      from "1.prems" False n
      have eq: "string_of_nat (m div 10) = string_of_nat (n div 10)"
        and dg: "digit_char (m mod 10) = digit_char (n mod 10)"
        by (simp_all add: string_of_nat.simps [of m] string_of_nat.simps [of n])
      have "m div 10 = n div 10" using "1.IH" [OF False eq] .
      moreover have "m mod 10 = n mod 10"
        using dg by (intro digit_char_inj) simp_all
      ultimately show ?thesis by (metis div_mult_mod_eq)
    qed
  qed
qed

lemma string_of_int_chars: "CHR ''x'' \<notin> set (string_of_int i)"
  using string_of_nat_digits [of "nat i"] string_of_nat_digits [of "nat (- i)"]
  by (auto simp add: string_of_int_def)

lemma string_of_int_inj: "string_of_int i = string_of_int j \<Longrightarrow> i = j"
proof -
  assume eq: "string_of_int i = string_of_int j"
  have nodash: "hd (string_of_nat n) \<noteq> CHR ''-''" for n
  proof -
    have "hd (string_of_nat n) \<in> set (string_of_nat n)"
      using string_of_nat_nonempty by simp
    then have "hd (string_of_nat n) \<in> set ''0123456789''"
      using string_of_nat_digits by blast
    then show ?thesis by auto
  qed
  show ?thesis
  proof (cases "i < 0"; cases "j < 0")
    assume "i < 0" "j < 0"
    then have "string_of_nat (nat (- i)) = string_of_nat (nat (- j))"
      using eq by (simp add: string_of_int_def)
    then have "nat (- i) = nat (- j)" by (rule string_of_nat_inj)
    then show ?thesis using \<open>i < 0\<close> \<open>j < 0\<close> by simp
  next
    assume "i < 0" "\<not> j < 0"
    then have "CHR ''-'' # string_of_nat (nat (- i)) = string_of_nat (nat j)"
      using eq by (simp add: string_of_int_def)
    then have "hd (string_of_nat (nat j)) = CHR ''-''" by (metis list.sel(1))
    then show ?thesis using nodash by blast
  next
    assume "\<not> i < 0" "j < 0"
    then have "string_of_nat (nat i) = CHR ''-'' # string_of_nat (nat (- j))"
      using eq by (simp add: string_of_int_def)
    then have "hd (string_of_nat (nat i)) = CHR ''-''" by (metis list.sel(1))
    then show ?thesis using nodash by blast
  next
    assume "\<not> i < 0" "\<not> j < 0"
    then have "string_of_nat (nat i) = string_of_nat (nat j)"
      using eq by (simp add: string_of_int_def)
    then have "nat i = nat j" by (rule string_of_nat_inj)
    then show ?thesis using \<open>\<not> i < 0\<close> \<open>\<not> j < 0\<close> by simp
  qed
qed

text \<open>The key tells the sizes apart.\<close>

lemma cacheKey_inj:
  assumes "cacheKey a = cacheKey b"
  shows "width a = width b \<and> height a = height b"
proof -
  from assms have
    "string_of_int (width a) @ CHR ''x'' # string_of_int (height a) =
     string_of_int (width b) @ CHR ''x'' # string_of_int (height b)"
    by (simp add: cacheKey_def)
  then have "string_of_int (width a) = string_of_int (width b)
           \<and> string_of_int (height a) = string_of_int (height b)"
    using append_Cons_eq_iff [OF string_of_int_chars string_of_int_chars] by blast
  then show ?thesis by (simp add: string_of_int_inj)
qed

subsection \<open>Sound caches\<close>

lemma cacheKey_eq: "cacheKey a = cacheKey b \<Longrightarrow> a = b"
  using cacheKey_inj [of a b] by simp

text \<open>What a call computes on a miss does not depend on what the cache holds.\<close>

lemma restrictSize_props:
  "p_width v' = p_width v \<Longrightarrow> p_height v' = p_height v \<Longrightarrow>
   p_minWidth v' = p_minWidth v \<Longrightarrow> p_maxWidth v' = p_maxWidth v \<Longrightarrow>
   p_minHeight v' = p_minHeight v \<Longrightarrow> p_maxHeight v' = p_maxHeight v \<Longrightarrow>
   restrictSize v' f A pref s = restrictSize v f A pref s"
  by (simp only: restrictSize_def)

lemma cleared_fields [simp]:
  "p_x (cleared v) = p_x v" "p_y (cleared v) = p_y v" "p_padding (cleared v) = p_padding v"
  "p_prevSizeCache (cleared v) = Map.empty"
  "p_invalidateParent (cleared v) = p_invalidateParent v" "parent (cleared v) = parent v"
  by (simp_all add: cleared_def)

lemma naturalSizeWrap_miss_cleared:
  assumes "p_prevSizeCache v (cacheKey A) = None"
  shows "fst (naturalSizeWrap ns v A) = fst (naturalSizeWrap ns (cleared v) A)"
proof -
  have r: "restrictSize (cleared v) f B pref s = restrictSize v f B pref s" for f B pref and s :: unit
    by (rule restrictSize_props) (simp_all add: cleared_def)
  show ?thesis
    by (simp only: naturalSizeWrap_def assms cleared_fields r option.case Let_def
          case_prod_beta fst_conv)
qed

lemma naturalSizeWrap_miss_cache:
  assumes "p_prevSizeCache v (cacheKey A) = None"
  shows "p_prevSizeCache (snd (naturalSizeWrap ns v A)) =
           (p_prevSizeCache v)
             (cacheKey (if truthy (p_x v) \<or> truthy (p_y v)
                        then Size_shrink A (nullish (p_x v) 0) (nullish (p_y v) 0) else A)
              \<mapsto> fst (naturalSizeWrap ns v A))"
  using assms
  by (simp add: naturalSizeWrap_def Let_def case_prod_beta)

lemma cleared_wrap: "cleared (snd (naturalSizeWrap ns v A)) = cleared v"
  by (simp add: naturalSizeWrap_def cleared_def Let_def case_prod_beta split: option.splits)

text \<open>
  Cache correctness for a view without offset: in every state that calls of the wrapper
  reach from an empty cache, a call returns what the computation on an empty cache
  returns.
\<close>

lemma naturalSizeWrap_sound_no_offset:
  assumes "\<not> truthy (p_x v)" and "\<not> truthy (p_y v)" and "cache_sound ns v"
  shows "fst (naturalSizeWrap ns v A) = fst (naturalSizeWrap ns (cleared v) A)
         \<and> cache_sound ns (snd (naturalSizeWrap ns v A))"
proof (cases "p_prevSizeCache v (cacheKey A)")
  case (Some c)
  then show ?thesis
    using assms(3) by (simp add: naturalSizeWrap_hit cache_sound_def)
next
  case None
  have res: "fst (naturalSizeWrap ns v A) = fst (naturalSizeWrap ns (cleared v) A)"
    using None by (rule naturalSizeWrap_miss_cleared)
  have cache: "p_prevSizeCache (snd (naturalSizeWrap ns v A)) =
                 (p_prevSizeCache v)(cacheKey A \<mapsto> fst (naturalSizeWrap ns v A))"
    using naturalSizeWrap_miss_cache [OF None, of ns] assms(1,2) by simp
  have "s = fst (naturalSizeWrap ns (cleared v) B)"
    if "p_prevSizeCache (snd (naturalSizeWrap ns v A)) (cacheKey B) = Some s" for B s
  proof (cases "cacheKey B = cacheKey A")
    case True
    then have "B = A" by (rule cacheKey_eq)
    then show ?thesis using that cache res by simp
  next
    case False
    then have "p_prevSizeCache v (cacheKey B) = Some s" using that cache by simp
    then show ?thesis using assms(3) by (simp add: cache_sound_def)
  qed
  then have "cache_sound ns (snd (naturalSizeWrap ns v A))"
    by (simp add: cache_sound_def cleared_wrap)
  then show ?thesis using res by simp
qed

lemma cache_sound_empty: "p_prevSizeCache v = Map.empty \<Longrightarrow> cache_sound ns v"
  by (simp add: cache_sound_def)

text \<open>
  C1 (cache correctness). The claim: two calls of the wrapped \<open>naturalSize(A)\<close> with no
  invalidating mutation in between return identical results, the second one from the
  cache entry keyed by \<open>A\<close>. The wrapper looks a result up under the key of the size it
  was called with, but stores it under the key of the size reduced by the view's
  offset. Here a text view with \<open>x = 1\<close> and \<open>width = "fill"\<close> is asked for its size at
  10x5, at 11x5 and at 10x5 again, with no mutation in between: the first call returns
  width 10 and leaves no entry under the key of 10x5 (the entry is under the key of
  9x5); the call at 11x5 stores its result under the key of 10x5; the third call
  returns that entry, of width 11.
\<close>

theorem naturalSize_cache_key_offset:
  "(let ns = Text_naturalSize example_text;
        (r1, v1) = naturalSizeWrap ns (offset_fill_view 1) (Size_new 10 5);
        (r2, v2) = naturalSizeWrap ns v1 (Size_new 11 5);
        (r3, v3) = naturalSizeWrap ns v2 (Size_new 10 5)
    in r1 = \<lparr>width = 10, height = 1\<rparr> \<and> r3 = \<lparr>width = 11, height = 1\<rparr>
       \<and> p_prevSizeCache v1 (cacheKey (Size_new 10 5)) = None
       \<and> p_prevSizeCache v1 (cacheKey (Size_new 9 5)) = Some r1)"
  by (simp add: size_eval offset_fill_view_def example_text_def Text_naturalSize_def)

section \<open>Explicit and filling dimensions\<close>





lemma falsy_nullish: "\<not> truthy v \<Longrightarrow> nullish v 0 = 0"
  by (cases v) (simp_all add: truthy_def nullish_def)

lemma naturalSizeWrap_fill_miss:
  assumes "p_width v = Some Fill"
    and "p_prevSizeCache v (cacheKey A) = None"
    and "0 \<le> width A"
  shows "width (fst (naturalSizeWrap ns v A)) = max (width A) (nullish (p_x v) 0)"
  using assms
  apply (cases "p_height v")
  apply (auto simp add: naturalSizeWrap_def restrictSize_def toDimension_def calcSize_cases
           Size_new_def Size_shrink_def truthy_def nullish_def Let_def
           split: option.splits prod.splits dim.splits)
  done

lemma naturalSizeWrap_fill_no_offset:
  assumes "p_width v = Some Fill" and "\<not> truthy (p_x v)" and "0 \<le> width A"
    and "fill_cache v"
  shows "width (fst (naturalSizeWrap ns v A)) = width A
         \<and> fill_cache (snd (naturalSizeWrap ns v A))"
proof (cases "p_prevSizeCache v (cacheKey A)")
  case (Some c)
  then show ?thesis
    using assms(3,4) by (simp add: naturalSizeWrap_hit fill_cache_def)
next
  case None
  let ?A' = "if truthy (p_x v) \<or> truthy (p_y v)
             then Size_shrink A (nullish (p_x v) 0) (nullish (p_y v) 0) else A"
  have x0: "nullish (p_x v) 0 = 0" using assms(2) by (rule falsy_nullish)
  have w: "width (fst (naturalSizeWrap ns v A)) = width A"
    using naturalSizeWrap_fill_miss [OF assms(1) None assms(3), of ns] x0 assms(3) by simp
  have wA': "width ?A' = width A"
    using assms(3) x0 by (simp add: Size_shrink_def Size_new_def)
  have cache: "p_prevSizeCache (snd (naturalSizeWrap ns v A)) =
                 (p_prevSizeCache v)(cacheKey ?A' \<mapsto> fst (naturalSizeWrap ns v A))"
    using None by (rule naturalSizeWrap_miss_cache)
  have "width s = width B"
    if "0 \<le> width B" and "p_prevSizeCache (snd (naturalSizeWrap ns v A)) (cacheKey B) = Some s"
    for B s
  proof (cases "cacheKey B = cacheKey ?A'")
    case True
    then have "B = ?A'" by (rule cacheKey_eq)
    then have "width B = width A" using wA' by simp
    moreover have "s = fst (naturalSizeWrap ns v A)"
      using that(2) True unfolding cache by simp
    ultimately show ?thesis using w by simp
  next
    case False
    then have "p_prevSizeCache v (cacheKey B) = Some s"
      using that(2) unfolding cache by simp
    then show ?thesis using assms(4) that(1) by (auto simp add: fill_cache_def)
  qed
  then have "fill_cache (snd (naturalSizeWrap ns v A))"
    by (auto simp add: fill_cache_def)
  then show ?thesis using w by simp
qed

text \<open>
  C3 (fill), as amended. For a view with \<open>width = "fill"\<close> and an available size \<open>A\<close>:
  when the view has no \<open>x\<close> offset (not set, or 0), the wrapped \<open>naturalSize(A)\<close> has the
  width \<open>A.width\<close>, from the cache or not, in every state that calls of the wrapper
  reach from the empty cache of a new view; when \<open>A\<close> has no entry under its key in the
  cache, the width is \<open>max(A.width, x)\<close> whatever the offset \<open>x\<close> is (0 when not set): the
  available width is reduced by the offset, not below 0, and the offset is added back.
  So with an offset the width of a computed result is \<open>A.width\<close> exactly when
  \<open>x \<le> A.width\<close>.
\<close>

theorem naturalSize_fill_width:
  assumes "p_width v = Some Fill" and "0 \<le> width A"
  shows "(p_prevSizeCache v (cacheKey A) = None \<longrightarrow>
            width (fst (naturalSizeWrap ns v A)) = max (width A) (nullish (p_x v) 0))
         \<and> (\<not> truthy (p_x v) \<and> fill_cache v \<longrightarrow>
              width (fst (naturalSizeWrap ns v A)) = width A
              \<and> fill_cache (snd (naturalSizeWrap ns v A)))"
  using assms naturalSizeWrap_fill_miss [of v A ns] naturalSizeWrap_fill_no_offset [of v A ns]
  by blast

theorem naturalSize_fill_width_witness:
  "p_width (offset_fill_view 1) = Some Fill
   \<and> 0 \<le> width (Size_new 10 5)
   \<and> p_prevSizeCache (offset_fill_view 1) (cacheKey (Size_new 10 5)) = None
   \<and> width (fst (naturalSizeWrap (Text_naturalSize example_text) (offset_fill_view 1) (Size_new 10 5))) = 10
   \<and> p_width fill_view = Some Fill
   \<and> \<not> truthy (p_x fill_view)
   \<and> fill_cache fill_view
   \<and> width (fst (naturalSizeWrap (Text_naturalSize example_text) fill_view (Size_new 10 5))) = 10
   \<and> fill_cache (snd (naturalSizeWrap (Text_naturalSize example_text) fill_view (Size_new 10 5)))"
proof -
  have a: "p_width (offset_fill_view 1) = Some Fill" "0 \<le> width (Size_new 10 5)"
    "p_prevSizeCache (offset_fill_view 1) (cacheKey (Size_new 10 5)) = None"
    "nullish (p_x (offset_fill_view 1)) 0 = 1"
    by (simp_all add: offset_fill_view_def View_new_def no_props_def toEdges_def Size_new_def
          nullish_def)
  have b: "p_width fill_view = Some Fill" "\<not> truthy (p_x fill_view)" "fill_cache fill_view"
    by (simp_all add: fill_view_def View_new_def no_props_def toEdges_def truthy_def
          fill_cache_def)
  have w: "width (Size_new 10 5) = 10" by (simp add: Size_new_def)
  from naturalSize_fill_width [OF a(1) a(2), of "Text_naturalSize example_text"] a(3,4) w
  have c: "width (fst (naturalSizeWrap (Text_naturalSize example_text) (offset_fill_view 1)
                    (Size_new 10 5))) = 10"
    by simp
  from naturalSize_fill_width [OF b(1) a(2), of "Text_naturalSize example_text"] b(2,3) w
  have d: "width (fst (naturalSizeWrap (Text_naturalSize example_text) fill_view (Size_new 10 5))) = 10"
    "fill_cache (snd (naturalSizeWrap (Text_naturalSize example_text) fill_view (Size_new 10 5)))"
    by simp_all
  show ?thesis
    using a(1,2,3) b c d by simp
qed

text \<open>
  C3 as stated fails: the new view with \<open>width = "fill"\<close> and \<open>x = 5\<close> returns the width 5
  at the available size 3x3.
\<close>

theorem naturalSize_fill_width_counterexample:
  "width (fst (naturalSizeWrap (Text_naturalSize example_text) (offset_fill_view 5) (Size_new 3 3)))
     \<noteq> width (Size_new 3 3)"
  by (simp add: size_eval offset_fill_view_def example_text_def Text_naturalSize_def)

section \<open>The theme accessor\<close>

lemma theme_own: "p_theme (st this) = Some t \<Longrightarrow> theme plain st this = Some t"
  by (subst theme.simps) simp

lemma theme_chain:
  "ancestors_are st this ps \<Longrightarrow>
   theme plain st this = Some (nullish (nearest_override st (this # ps)) plain)"
proof (induction ps arbitrary: this)
  case Nil
  then show ?case
    by (subst theme.simps) (simp add: nullish_def split: option.splits)
next
  case (Cons p ps)
  from Cons.prems have par: "parent (st this) = Some p" and rest: "ancestors_are st p ps"
    by simp_all
  have ih: "theme plain st p = Some (nullish (nearest_override st (p # ps)) plain)"
    using Cons.IH [OF rest] .
  show ?case
    by (subst theme.simps) (simp add: par ih nullish_def split: option.splits)
qed

text \<open>
  C9 (theme accessor). A view's \<open>theme\<close> is its own override when it has one; otherwise,
  on a parent chain that ends, the override of the nearest ancestor that has one;
  otherwise the plain theme. In both cases the accessor returns.
\<close>

theorem theme_resolution:
  "(p_theme (st this) = Some t \<longrightarrow> theme plain st this = Some t)
   \<and> (ancestors_are st this ps \<longrightarrow>
        theme plain st this = Some (nullish (nearest_override st (this # ps)) plain))"
  by (simp add: theme_own theme_chain)

theorem theme_resolution_witness:
  "p_theme (example_store 2) = Some ''dark''
   \<and> theme ''plain'' example_store 2 = Some ''dark''
   \<and> ancestors_are example_store 0 [1, 2]
   \<and> theme ''plain'' example_store 0 = Some ''dark''
   \<and> ancestors_are example_store 3 []
   \<and> theme ''plain'' example_store 3 = Some ''plain''"
  using theme_resolution [of example_store 2 "''dark''" "''plain''" "[]"]
        theme_resolution [of example_store 0 "''dark''" "''plain''" "[1, 2]"]
        theme_resolution [of example_store 3 "''dark''" "''plain''" "[]"]
  by (simp add: example_store_def example_view_def View_new_def no_props_def nullish_def)

section \<open>Invalidation\<close>

lemma ancestors_are_cong:
  "(\<And>j. parent (st' j) = parent (st j)) \<Longrightarrow> ancestors_are st' i ps = ancestors_are st i ps"
  by (induction ps arbitrary: i) simp_all

lemma invalidated_views_cong:
  "(\<And>j. p_invalidateParent (st' j) = p_invalidateParent (st j)) \<Longrightarrow>
   invalidated_views st' is = invalidated_views st is"
  by (induction "is") simp_all

text \<open>On a parent chain that ends, \<open>invalidateSize\<close> returns, and this is the store it leaves.\<close>

lemma invalidateSize_chain:
  "ancestors_are st this ps \<Longrightarrow>
   invalidateSize st this =
     Some (\<lambda>j. if j \<in> set (invalidated_views st (this # ps)) then cleared (st j) else st j)"
proof (induction ps arbitrary: st this)
  case Nil
  then show ?case
    by (subst invalidateSize.simps) (auto simp add: Let_def cleared_def fun_eq_iff)
next
  case (Cons p ps)
  let ?st1 = "st(this := (st this)\<lparr>p_prevSizeCache := Map.empty\<rparr>)"
  from Cons.prems have par: "parent (st this) = Some p" and rest: "ancestors_are st p ps"
    by simp_all
  have par1: "\<And>j. parent (?st1 j) = parent (st j)" by simp
  have flag1: "\<And>j. p_invalidateParent (?st1 j) = p_invalidateParent (st j)" by simp
  have rest1: "ancestors_are ?st1 p ps"
    using rest ancestors_are_cong [of ?st1 st p ps, OF par1] by simp
  have iv1: "invalidated_views ?st1 (p # ps) = invalidated_views st (p # ps)"
    using invalidated_views_cong [of ?st1 st "p # ps", OF flag1] .
  have ih: "invalidateSize ?st1 p =
     Some (\<lambda>j. if j \<in> set (invalidated_views st (p # ps)) then cleared (?st1 j) else ?st1 j)"
    using Cons.IH [OF rest1] unfolding iv1 .
  show ?case
  proof (cases "p_invalidateParent (st this)")
    case True
    have "invalidateSize st this = invalidateSize ?st1 p"
      by (subst invalidateSize.simps) (simp add: Let_def par True)
    also have "\<dots> = Some (\<lambda>j. if j \<in> set (invalidated_views st (this # p # ps))
                                then cleared (st j) else st j)"
      unfolding ih using True by (auto simp add: fun_eq_iff cleared_def)
    finally show ?thesis .
  next
    case False
    then show ?thesis
      by (subst invalidateSize.simps) (auto simp add: Let_def cleared_def fun_eq_iff)
  qed
qed

lemma invalidateSize_suppressed:
  "\<not> p_invalidateParent (st this) \<Longrightarrow>
   invalidateSize st this = Some (st(this := (st this)\<lparr>p_prevSizeCache := Map.empty\<rparr>))"
  by (subst invalidateSize.simps) (simp add: Let_def)

text \<open>
  C5 (invalidation). On a parent chain that ends, \<open>invalidateSize()\<close> returns; it leaves
  the view's own cache empty; when \<open>#invalidateParent\<close> is set it has invalidated the
  parent too, whose cache is empty, and so on up the chain; when propagation is
  suppressed no other view has changed; the views it reached have lost their caches
  and nothing else has changed; and a second call right after the first leaves the
  store as the first left it.
\<close>

theorem invalidateSize_idempotent:
  assumes "ancestors_are st this ps"
  shows "\<exists>st'. invalidateSize st this = Some st'
           \<and> p_prevSizeCache (st' this) = Map.empty
           \<and> (\<forall>p. p_invalidateParent (st this) \<and> parent (st this) = Some p \<longrightarrow>
                  p_prevSizeCache (st' p) = Map.empty)
           \<and> (\<not> p_invalidateParent (st this) \<longrightarrow> (\<forall>j. j \<noteq> this \<longrightarrow> st' j = st j))
           \<and> (\<forall>j. st' j = (if j \<in> set (invalidated_views st (this # ps))
                             then cleared (st j) else st j))
           \<and> invalidateSize st' this = Some st'"
proof -
  let ?st' = "\<lambda>j. if j \<in> set (invalidated_views st (this # ps)) then cleared (st j) else st j"
  have first: "invalidateSize st this = Some ?st'"
    using assms by (rule invalidateSize_chain)
  have par: "\<And>j. parent (?st' j) = parent (st j)" by (simp add: cleared_def)
  have flag: "\<And>j. p_invalidateParent (?st' j) = p_invalidateParent (st j)"
    by (simp add: cleared_def)
  have chain': "ancestors_are ?st' this ps"
    using assms ancestors_are_cong [of ?st' st this ps, OF par] by simp
  have iv: "invalidated_views ?st' (this # ps) = invalidated_views st (this # ps)"
    using invalidated_views_cong [of ?st' st "this # ps", OF flag] .
  have "invalidateSize ?st' this =
          Some (\<lambda>j. if j \<in> set (invalidated_views st (this # ps)) then cleared (?st' j) else ?st' j)"
    using invalidateSize_chain [OF chain'] unfolding iv .
  also have "\<dots> = Some ?st'"
    by (auto simp add: fun_eq_iff cleared_def)
  finally have second: "invalidateSize ?st' this = Some ?st'" .
  have own: "p_prevSizeCache (?st' this) = Map.empty"
    by (simp add: cleared_def)
  have parent_too: "p_prevSizeCache (?st' p) = Map.empty"
    if "p_invalidateParent (st this) \<and> parent (st this) = Some p" for p
  proof -
    have "p \<in> set (invalidated_views st (this # ps))"
      using that assms by (cases ps) auto
    then show ?thesis by (simp add: cleared_def)
  qed
  have others: "\<not> p_invalidateParent (st this) \<longrightarrow> (\<forall>j. j \<noteq> this \<longrightarrow> ?st' j = st j)"
    by simp
  show ?thesis
    using first second own parent_too others by blast
qed

lemmas store_eval = example_store_def example_view_def View_new_def no_props_def toEdges_def
  Size_new_def Size_zero_def

theorem invalidateSize_idempotent_witness:
  "ancestors_are example_store 0 [1, 2]
   \<and> p_prevSizeCache (example_store 2) ''10x5'' = Some (Size_new 10 5)
   \<and> (\<exists>st'. invalidateSize example_store 0 = Some st'
          \<and> p_prevSizeCache (st' 0) = Map.empty
          \<and> p_prevSizeCache (st' 1) = Map.empty
          \<and> p_prevSizeCache (st' 2) = Map.empty
          \<and> st' 3 = example_store 3
          \<and> invalidateSize st' 0 = Some st')"
proof -
  have h: "ancestors_are example_store 0 [1, 2]"
    by (simp add: store_eval)
  have before: "p_prevSizeCache (example_store 2) ''10x5'' = Some (Size_new 10 5)"
    by (simp add: store_eval)
  have flags: "p_invalidateParent (example_store 0)" "p_invalidateParent (example_store 1)"
    by (simp_all add: store_eval)
  from invalidateSize_idempotent [OF h]
  obtain st' where r: "invalidateSize example_store 0 = Some st'"
    and all: "\<forall>j. st' j = (if j \<in> set (invalidated_views example_store [0, 1, 2])
                             then cleared (example_store j) else example_store j)"
    and again: "invalidateSize st' 0 = Some st'"
    by blast
  have iv: "invalidated_views example_store [0, 1, 2] = [0, 1, 2]"
    using flags by simp
  have "p_prevSizeCache (st' 0) = Map.empty" "p_prevSizeCache (st' 1) = Map.empty"
       "p_prevSizeCache (st' 2) = Map.empty" "st' 3 = example_store 3"
    using all unfolding iv by (simp_all add: cleared_def)
  then show ?thesis
    using h before r again by blast
qed

section \<open>Setting the text of a text view\<close>

text \<open>
  The setter of \<open>text\<close> with a string that differs from the current one ends in
  \<open>invalidateSize()\<close>: on a parent chain that ends it returns, the view's cache is empty
  afterwards, and the next call of the wrapped \<open>naturalSize\<close> computes its result as on
  a view whose cache holds nothing. With the same string the setter changes nothing.
\<close>

lemma Text_set_text_invalidates:
  assumes "p_text t \<noteq> v" and "ancestors_are st this ps"
  shows "\<exists>t' st'. Text_set_text env t st this v = Some (t', st')
           \<and> p_text t' = v
           \<and> p_prevSizeCache (st' this) = Map.empty
           \<and> naturalSizeWrap ns (st' this) A =
               naturalSizeWrap ns ((st this)\<lparr>p_prevSizeCache := Map.empty\<rparr>) A"
  using assms invalidateSize_chain [OF assms(2)]
  by (simp add: Text_set_text_def Text_updateLines_def Let_def case_prod_beta cleared_def)

lemma Text_set_text_same:
  "p_text t = v \<Longrightarrow> Text_set_text env t st this v = Some (t, st)"
  by (simp add: Text_set_text_def)

section \<open>The render wrapper\<close>

lemma renderWrap_detect_changed:
  assumes "width (p_viewportContentSize (st this)) \<noteq> width vcs \<or>
           height (p_viewportContentSize (st this)) \<noteq> height vcs"
  shows "renderWrap_detect st this vcs =
           Some (st(this := (st this)\<lparr>p_prevSizeCache := Map.empty, p_invalidateParent := True\<rparr>))"
  using assms
  by (simp add: renderWrap_detect_def invalidateSize_suppressed)

lemma renderWrap_detect_same:
  assumes "\<not> (width (p_viewportContentSize (st this)) \<noteq> width vcs \<or>
           height (p_viewportContentSize (st this)) \<noteq> height vcs)"
  shows "renderWrap_detect st this vcs = Some st"
  using assms
  by (simp add: renderWrap_detect_def)

lemma restrictSize_wrap_flag:
  "p_invalidateParent (snd (restrictSize v (\<lambda>u. naturalSizeWrap ns u A) B pref v)) =
   p_invalidateParent v"
proof -
  have flag: "p_invalidateParent (snd (naturalSizeWrap ns v A)) = p_invalidateParent v"
    by (subst naturalSizeWrap_fields) simp
  from restrictSize_state [of v "\<lambda>u. naturalSizeWrap ns u A" B pref v]
  show ?thesis using flag by auto
qed

text \<open>After its first statement the wrapper changes the view itself only, and not the flag.\<close>

lemma renderWrap_after_detect:
  assumes "renderWrap_detect st this vcs = Some st1"
  shows "\<exists>st' r. renderWrap ns st this vcs = Some (st', r)
           \<and> (\<forall>j. j \<noteq> this \<longrightarrow> st' j = st1 j)
           \<and> p_invalidateParent (st' this) = p_invalidateParent (st1 this)"
  using assms
  by (simp add: renderWrap_def Let_def case_prod_beta restrictSize_wrap_flag)

text \<open>
  C4 (content-size change). When the wrapped \<open>render\<close> is called with a viewport whose
  \<open>contentSize\<close> differs from the one recorded on the previous frame: the first statement
  of the wrapper leaves the view's own cache empty, \<open>#invalidateParent\<close> set again, and
  every other view of the store, the parent among them, as it was; at its call of
  \<open>viewport._render\<close> the wrapper has still changed no other view, the flag is set, and
  nothing of the old cache is left: the outcome is the same whatever the cache held
  before the call.
\<close>

theorem renderWrap_self_invalidation:
  assumes "width (p_viewportContentSize (st this)) \<noteq> width vcs \<or>
           height (p_viewportContentSize (st this)) \<noteq> height vcs"
  shows "\<exists>st1 st' r.
           renderWrap_detect st this vcs = Some st1
           \<and> p_prevSizeCache (st1 this) = Map.empty
           \<and> p_invalidateParent (st1 this)
           \<and> (\<forall>j. j \<noteq> this \<longrightarrow> st1 j = st j)
           \<and> renderWrap ns st this vcs = Some (st', r)
           \<and> (\<forall>j. j \<noteq> this \<longrightarrow> st' j = st j)
           \<and> p_invalidateParent (st' this)
           \<and> (\<forall>c. renderWrap ns (st(this := (st this)\<lparr>p_prevSizeCache := c\<rparr>)) this vcs
                    = Some (st', r))"
proof -
  let ?st1 = "st(this := (st this)\<lparr>p_prevSizeCache := Map.empty, p_invalidateParent := True\<rparr>)"
  have d: "renderWrap_detect st this vcs = Some ?st1"
    using assms by (rule renderWrap_detect_changed)
  from renderWrap_after_detect [OF d, of ns]
  obtain st' r where r: "renderWrap ns st this vcs = Some (st', r)"
    and frame: "\<forall>j. j \<noteq> this \<longrightarrow> st' j = ?st1 j"
    and flag: "p_invalidateParent (st' this) = p_invalidateParent (?st1 this)"
    by blast
  have indep: "renderWrap ns (st(this := (st this)\<lparr>p_prevSizeCache := c\<rparr>)) this vcs = Some (st', r)"
    for c
  proof -
    have "renderWrap_detect (st(this := (st this)\<lparr>p_prevSizeCache := c\<rparr>)) this vcs = Some ?st1"
      using assms
        renderWrap_detect_changed [of "st(this := (st this)\<lparr>p_prevSizeCache := c\<rparr>)" this vcs]
      by simp
    then have "renderWrap ns (st(this := (st this)\<lparr>p_prevSizeCache := c\<rparr>)) this vcs =
               renderWrap ns st this vcs"
      using d by (simp add: renderWrap_def)
    then show ?thesis using r by simp
  qed
  show ?thesis
    using d r frame flag indep by simp
qed

theorem renderWrap_self_invalidation_witness:
  "width (p_viewportContentSize (example_store 0)) \<noteq> width (Size_new 10 5)
   \<and> parent (example_store 0) = Some 1
   \<and> p_prevSizeCache (example_store 0) ''10x5'' = Some (Size_new 10 5)
   \<and> (\<exists>st1 st' r.
         renderWrap_detect example_store 0 (Size_new 10 5) = Some st1
         \<and> p_prevSizeCache (st1 0) = Map.empty
         \<and> p_invalidateParent (st1 0)
         \<and> st1 1 = example_store 1
         \<and> renderWrap (Text_naturalSize example_text) example_store 0 (Size_new 10 5) = Some (st', r)
         \<and> st' 1 = example_store 1
         \<and> p_invalidateParent (st' 0))"
proof -
  have h: "width (p_viewportContentSize (example_store 0)) \<noteq> width (Size_new 10 5) \<or>
           height (p_viewportContentSize (example_store 0)) \<noteq> height (Size_new 10 5)"
    by (simp add: store_eval)
  have facts: "parent (example_store 0) = Some 1"
    "p_prevSizeCache (example_store 0) ''10x5'' = Some (Size_new 10 5)"
    by (simp_all add: store_eval)
  from renderWrap_self_invalidation
         [of example_store 0 "Size_new 10 5" "Text_naturalSize example_text", OF h]
  obtain st1 st' r where
    "renderWrap_detect example_store 0 (Size_new 10 5) = Some st1"
    "p_prevSizeCache (st1 0) = Map.empty"
    "p_invalidateParent (st1 0)"
    "\<forall>j. j \<noteq> 0 \<longrightarrow> st1 j = example_store j"
    "renderWrap (Text_naturalSize example_text) example_store 0 (Size_new 10 5) = Some (st', r)"
    "\<forall>j. j \<noteq> 0 \<longrightarrow> st' j = example_store j"
    "p_invalidateParent (st' 0)"
    by blast
  moreover have "width (p_viewportContentSize (example_store 0)) \<noteq> width (Size_new 10 5)"
    by (simp add: store_eval)
  ultimately show ?thesis
    using facts by auto
qed

section \<open>Placement of the dropdown overlay\<close>



section \<open>Rendering a text\<close>

lemma render_char_token:
  "charWidth env tok = 0 \<Longrightarrow>
   Text_render_char env t tok s = s\<lparr>viewport := (viewport s)\<lparr>pen := fromSGR env tok\<rparr>\<rparr>"
  by (simp add: Text_render_char_def Viewport_replacePen_def)

lemma write_cells_erase:
  "erase_style cs = erase_style cs' \<Longrightarrow>
   erase_style (write_cells cw vis st chars p cs) = erase_style (write_cells cw vis st' chars p cs')"
  by (induction chars arbitrary: p cs cs') (simp_all add: erase_style_def)

text \<open>Where a unit is painted, and whether, does not depend on the pen.\<close>

lemma render_char_geometry:
  assumes "same_geometry s s'"
  shows "same_geometry (Text_render_char env t c s) (Text_render_char env t c s')"
  using assms write_cells_erase [of "cells (viewport s)" "cells (viewport s')"]
  by (simp add: same_geometry_def Text_render_char_def Viewport_replacePen_def
        Viewport_write_def Let_def)

lemma render_chars_geometry:
  "same_geometry s s' \<Longrightarrow>
   same_geometry (Text_render_chars env t chars s) (Text_render_chars env t chars s')"
  unfolding Text_render_chars_def
  by (induction chars arbitrary: s s') (simp_all add: render_char_geometry)

lemma render_chars_append:
  "Text_render_chars env t (pre @ post) s =
     Text_render_chars env t post (Text_render_chars env t pre s)"
  by (simp add: Text_render_chars_def)

lemma render_chars_token:
  "charWidth env tok = 0 \<Longrightarrow>
   Text_render_chars env t (pre @ tok # post) s =
     Text_render_chars env t post
       ((Text_render_chars env t pre s)
          \<lparr>viewport := (viewport (Text_render_chars env t pre s))\<lparr>pen := fromSGR env tok\<rparr>\<rparr>)"
  by (simp add: Text_render_chars_def render_char_token)

lemma write_cells_styles:
  "\<exists>new. write_cells cw vis st chars p cs = cs @ new \<and> (\<forall>cell \<in> set new. snd (snd cell) = st)"
proof (induction chars arbitrary: p cs)
  case Nil
  then show ?case by simp
next
  case (Cons c chars)
  let ?cs1 = "if Rect_includes vis p then cs @ [(p, c, st)] else cs"
  from Cons.IH [of "p\<lparr>x := x p + cw c\<rparr>" ?cs1]
  obtain new where n: "write_cells cw vis st chars (p\<lparr>x := x p + cw c\<rparr>) ?cs1 = ?cs1 @ new"
    and st: "\<forall>cell \<in> set new. snd (snd cell) = st"
    by blast
  show ?case
  proof (cases "Rect_includes vis p")
    case True
    then have "write_cells cw vis st (c # chars) p cs = cs @ ((p, c, st) # new)"
      using n by simp
    moreover have "\<forall>cell \<in> set ((p, c, st) # new). snd (snd cell) = st"
      using st by simp
    ultimately show ?thesis by blast
  next
    case False
    then have "write_cells cw vis st (c # chars) p cs = cs @ new"
      using n by simp
    then show ?thesis using st by blast
  qed
qed

lemma render_char_styles:
  assumes "charWidth env c \<noteq> 0"
  shows "pen (viewport (Text_render_char env t c s)) = pen (viewport s)
         \<and> (\<exists>new. cells (viewport (Text_render_char env t c s)) = cells (viewport s) @ new
               \<and> (\<forall>cell \<in> set new. snd (snd cell) = pen (viewport s)))"
  using assms
    write_cells_styles [of "charWidth env" "visibleRect (viewport s)" "pen (viewport s)"
      "printableChars env c" _ "cells (viewport s)"]
  by (auto simp add: Text_render_char_def Viewport_write_def Let_def nullish_def)

text \<open>Units of positive width leave the pen alone and paint with it.\<close>

lemma render_chars_styles:
  assumes "\<forall>c \<in> set chars. charWidth env c \<noteq> 0"
  shows "pen (viewport (Text_render_chars env t chars s)) = pen (viewport s)
         \<and> (\<exists>new. cells (viewport (Text_render_chars env t chars s)) = cells (viewport s) @ new
               \<and> (\<forall>cell \<in> set new. snd (snd cell) = pen (viewport s)))"
  using assms
proof (induction chars arbitrary: s)
  case Nil
  then show ?case by (simp add: Text_render_chars_def)
next
  case (Cons c chars)
  let ?s1 = "Text_render_char env t c s"
  from Cons.prems have c: "charWidth env c \<noteq> 0" and rest: "\<forall>c \<in> set chars. charWidth env c \<noteq> 0"
    by simp_all
  from render_char_styles [OF c, of t s]
  obtain new1 where p1: "pen (viewport ?s1) = pen (viewport s)"
    and c1: "cells (viewport ?s1) = cells (viewport s) @ new1"
    and s1: "\<forall>cell \<in> set new1. snd (snd cell) = pen (viewport s)"
    by blast
  from Cons.IH [OF rest, of ?s1]
  obtain new2 where p2: "pen (viewport (Text_render_chars env t chars ?s1)) = pen (viewport ?s1)"
    and c2: "cells (viewport (Text_render_chars env t chars ?s1)) = cells (viewport ?s1) @ new2"
    and s2: "\<forall>cell \<in> set new2. snd (snd cell) = pen (viewport ?s1)"
    by blast
  have step: "Text_render_chars env t (c # chars) s = Text_render_chars env t chars ?s1"
    by (simp add: Text_render_chars_def)
  have "cells (viewport (Text_render_chars env t (c # chars) s)) = cells (viewport s) @ (new1 @ new2)"
    by (simp add: step c2 c1)
  moreover have "\<forall>cell \<in> set (new1 @ new2). snd (snd cell) = pen (viewport s)"
    using s1 s2 p1 by auto
  moreover have "pen (viewport (Text_render_chars env t (c # chars) s)) = pen (viewport s)"
    by (simp add: step p2 p1)
  ultimately show ?case by blast
qed

text \<open>
  C7 (inline style token). A unit of width 0 in a line is a style token. The step of
  \<open>Text.render\<close> on it replaces the pen by the token's style and changes nothing else:
  not the write position, not \<open>didWrap\<close>, not the painted cells. So a line with the
  token ends at the same position and paints the same texts at the same positions as
  the line without it (the token takes no cell), and the units after the token, up to
  the next token, are painted in the token's style, starting with the very next unit.
\<close>

theorem text_render_style_token:
  assumes "charWidth env tok = 0"
  shows "Text_render_char env t tok s = s\<lparr>viewport := (viewport s)\<lparr>pen := fromSGR env tok\<rparr>\<rparr>
     \<and> point (Text_render_chars env t (pre @ tok # post) s)
         = point (Text_render_chars env t (pre @ post) s)
     \<and> erase_style (cells (viewport (Text_render_chars env t (pre @ tok # post) s)))
         = erase_style (cells (viewport (Text_render_chars env t (pre @ post) s)))
     \<and> ((\<forall>c \<in> set post. charWidth env c \<noteq> 0) \<longrightarrow>
          (\<exists>new. cells (viewport (Text_render_chars env t (pre @ tok # post) s))
                    = cells (viewport (Text_render_chars env t pre s)) @ new
                 \<and> (\<forall>cell \<in> set new. snd (snd cell) = fromSGR env tok)))"
proof -
  let ?s1 = "Text_render_chars env t pre s"
  let ?s1' = "?s1\<lparr>viewport := (viewport ?s1)\<lparr>pen := fromSGR env tok\<rparr>\<rparr>"
  have tok: "Text_render_chars env t (pre @ tok # post) s = Text_render_chars env t post ?s1'"
    using assms by (rule render_chars_token)
  have plain: "Text_render_chars env t (pre @ post) s = Text_render_chars env t post ?s1"
    by (rule render_chars_append)
  have "same_geometry ?s1' ?s1"
    by (simp add: same_geometry_def)
  then have geo: "same_geometry (Text_render_chars env t post ?s1') (Text_render_chars env t post ?s1)"
    by (rule render_chars_geometry)
  have styles: "\<exists>new. cells (viewport (Text_render_chars env t post ?s1')) = cells (viewport ?s1) @ new
                 \<and> (\<forall>cell \<in> set new. snd (snd cell) = fromSGR env tok)"
    if "\<forall>c \<in> set post. charWidth env c \<noteq> 0"
    using render_chars_styles [OF that, of t ?s1'] by simp
  show ?thesis
    using assms geo styles
    by (simp add: tok plain render_char_token same_geometry_def)
qed

lemmas render_eval = Text_render_chars_def Text_render_char_def Viewport_write_def
  Viewport_replacePen_def example_env_def example_charWidth_def bold_token_def line_start_def
  anchor_vp_def example_text_def Rect_includes_def Rect_new_def Point_new_def Point_zero_def
  Size_new_def minX_def maxX_def minY_def maxY_def nullish_def Let_def

text \<open>
  The line \<open>a\<close>, bold token, \<open>b\<close>: \<open>a\<close> is painted at column 0 in the plain style, \<open>b\<close> at
  column 1 in the token's style, and the line ends at column 2.
\<close>

theorem text_render_style_token_witness:
  "charWidth example_env bold_token = 0
   \<and> charWidth example_env ''b'' \<noteq> 0
   \<and> point (Text_render_chars example_env example_text [''a'', bold_token, ''b''] line_start)
       = \<lparr>x = 2, y = 0\<rparr>
   \<and> point (Text_render_chars example_env example_text [''a'', ''b''] line_start)
       = \<lparr>x = 2, y = 0\<rparr>
   \<and> cells (viewport (Text_render_chars example_env example_text [''a'', bold_token, ''b''] line_start))
       = [(\<lparr>x = 0, y = 0\<rparr>, ''a'', ''plain''), (\<lparr>x = 1, y = 0\<rparr>, ''b'', bold_token)]"
  using text_render_style_token
          [of example_env bold_token example_text line_start "[''a'']" "[''b'']"]
  by (simp add: render_eval)

section \<open>Degenerate geometry\<close>






text \<open>
  Through the wrapper: a text view that sets no sizing property and has an empty cache
  returns the same size at the available size zero.
\<close>

lemma Text_wrapped_naturalSize_zero:
  "fst (naturalSizeWrap (Text_naturalSize t) (View_new no_props) Size_zero) =
     Text_naturalSize t Size_zero"
  by (simp add: naturalSizeWrap_def restrictSize_def calcSize_def View_new_def no_props_def
        toEdges_def truthy_def Let_def Size_zero_def Size_new_def cacheKey_def)








section \<open>The accordion\<close>

declare AccordionSection_set_isOpen.simps [simp del]
declare Accordion_sectionDidChange.simps [simp del]

lemma closed_section_simps [simp]:
  "p_isOpen (closed_section s) = False"
  "onClick (closed_section s) = onClick s"
  "closed_section (closed_section s) = closed_section s"
  by (simp_all add: closed_section_def)

text \<open>Closing a section through the setter changes that section only.\<close>

lemma set_isOpen_False:
  "AccordionSection_set_isOpen a i False = a\<lparr>heap := (heap a)(i := closed_section (heap a i))\<rparr>"
  by (cases "onClick (heap a i)")
     (auto simp add: AccordionSection_set_isOpen.simps Accordion_sectionDidChange.simps
        closed_section_def titleStyle_def Let_def split: callback.splits)

text \<open>The loop of \<open>#sectionDidChange\<close> closes every listed section but the toggled one.\<close>

lemma loop_closes:
  "sectionDidChange_loop a t l =
     a\<lparr>heap := (\<lambda>i. if i \<in> set l \<and> i \<noteq> t then closed_section (heap a i) else heap a i)\<rparr>"
proof (induction l arbitrary: a)
  case Nil
  then show ?case by simp
next
  case (Cons s l)
  show ?case
  proof (cases "t = s")
    case True
    have "sectionDidChange_loop a t (s # l) = sectionDidChange_loop a t l"
      using True by simp
    also have "\<dots> = a\<lparr>heap := (\<lambda>i. if i \<in> set l \<and> i \<noteq> t then closed_section (heap a i)
                                     else heap a i)\<rparr>"
      by (rule Cons.IH)
    also have "\<dots> = a\<lparr>heap := (\<lambda>i. if i \<in> set (s # l) \<and> i \<noteq> t then closed_section (heap a i)
                                     else heap a i)\<rparr>"
      using True by (auto simp add: fun_eq_iff)
    finally show ?thesis .
  next
    case False
    let ?a1 = "a\<lparr>heap := (heap a)(s := closed_section (heap a s))\<rparr>"
    have "sectionDidChange_loop a t (s # l) = sectionDidChange_loop ?a1 t l"
      using False by (simp add: set_isOpen_False)
    also have "\<dots> = ?a1\<lparr>heap := (\<lambda>i. if i \<in> set l \<and> i \<noteq> t then closed_section (heap ?a1 i)
                                       else heap ?a1 i)\<rparr>"
      by (rule Cons.IH)
    also have "\<dots> = a\<lparr>heap := (\<lambda>i. if i \<in> set (s # l) \<and> i \<noteq> t then closed_section (heap a i)
                                     else heap a i)\<rparr>"
      using False by (auto simp add: fun_eq_iff)
    finally show ?thesis .
  qed
qed

text \<open>The \<open>forEach\<close> of \<open>addSection\<close> closes every listed section.\<close>

lemma fold_closes:
  "fold (\<lambda>section b. AccordionSection_set_isOpen b section False) l a =
     a\<lparr>heap := (\<lambda>i. if i \<in> set l then closed_section (heap a i) else heap a i)\<rparr>"
proof (induction l arbitrary: a)
  case Nil
  then show ?case by simp
next
  case (Cons s l)
  let ?f = "\<lambda>section b. AccordionSection_set_isOpen b section False"
  let ?a1 = "a\<lparr>heap := (heap a)(s := closed_section (heap a s))\<rparr>"
  have "fold ?f (s # l) a = fold ?f l ?a1"
    by (simp only: fold.simps comp_def set_isOpen_False)
  also have "\<dots> = ?a1\<lparr>heap := (\<lambda>i. if i \<in> set l then closed_section (heap ?a1 i) else heap ?a1 i)\<rparr>"
    by (rule Cons.IH)
  also have "\<dots> = a\<lparr>heap := (\<lambda>i. if i \<in> set (s # l) then closed_section (heap a i) else heap a i)\<rparr>"
    by (auto simp add: fun_eq_iff)
  finally show ?case .
qed

lemma inv_construct:
  assumes "accordion_inv a"
  shows "accordion_inv (snd (AccordionSection_construct a isOpen))"
proof -
  let ?a' = "snd (AccordionSection_construct a isOpen)"
  have s: "sections ?a' = sections a"
    by (simp add: AccordionSection_construct_def sections_def)
  have m: "p_multiple ?a' = p_multiple a" and n: "next_id ?a' = Suc (next_id a)"
    by (simp_all add: AccordionSection_construct_def)
  have h: "heap ?a' i = heap a i" if "i \<in> set (sections a)" for i
  proof -
    have "i < next_id a" using assms that by (simp add: accordion_inv_def)
    then show ?thesis by (simp add: AccordionSection_construct_def)
  qed
  show ?thesis
    unfolding accordion_inv_def s m n
    using assms h by (simp add: accordion_inv_def less_Suc_eq)
qed

lemma inv_addSection:
  "accordion_inv a \<Longrightarrow> i < next_id a \<Longrightarrow> accordion_inv (Accordion_addSection a i)"
  unfolding accordion_inv_def Accordion_addSection_def Let_def
  by (auto simp add: fold_closes Container_add_def sections_def)

lemma inv_addSection_titled:
  "accordion_inv a \<Longrightarrow> accordion_inv (Accordion_addSection_titled a)"
  unfolding Accordion_addSection_titled_def AccordionSection_create_def
  using inv_addSection [of "snd (AccordionSection_construct a None)" "next_id a"]
        inv_construct [of a None]
  by (simp add: AccordionSection_construct_def split: prod.splits)

lemma inv_receiveMouse:
  "accordion_inv a \<Longrightarrow> i \<in> set (sections a) \<Longrightarrow>
   accordion_inv (AccordionSection_receiveMouse a i e)"
  unfolding accordion_inv_def AccordionSection_receiveMouse_def Let_def
  by (auto simp add: Accordion_sectionDidChange.simps loop_closes sections_def
        split: callback.splits option.splits)

lemma inv_apply_op: "accordion_inv a \<Longrightarrow> accordion_inv (apply_op a op)"
  by (cases op) (simp_all add: inv_construct inv_addSection inv_addSection_titled inv_receiveMouse)

lemma inv_run_ops: "accordion_inv a \<Longrightarrow> accordion_inv (run_ops a ops)"
  unfolding run_ops_def
  by (induction ops arbitrary: a) (simp_all add: inv_apply_op)

lemma inv_new: "multiple \<noteq> Some True \<Longrightarrow> accordion_inv (Accordion_new multiple h n)"
  by (cases multiple) (auto simp add: accordion_inv_def Accordion_new_def sections_def nullish_def)

lemma at_most_one:
  assumes "distinct xs" and "\<forall>x \<in> set xs. \<forall>y \<in> set xs. x = y"
  shows "length xs \<le> 1"
proof (cases xs)
  case Nil
  then show ?thesis by simp
next
  case (Cons a ys)
  have "ys = []"
  proof (cases ys)
    case Nil
    then show ?thesis .
  next
    case (Cons b zs)
    have mem: "a \<in> set xs" "b \<in> set xs"
      using \<open>xs = a # ys\<close> Cons by simp_all
    have "a \<noteq> b" using assms(1) \<open>xs = a # ys\<close> Cons by simp
    moreover have "a = b" using assms(2) mem by blast
    ultimately show ?thesis by simp
  qed
  then show ?thesis using Cons by simp
qed

lemma inv_open_sections: "accordion_inv a \<Longrightarrow> length (open_sections a) \<le> 1"
  unfolding open_sections_def
  by (rule at_most_one) (auto simp add: accordion_inv_def)

text \<open>A click that opens a section of the accordion leaves that section as the only open one.\<close>

lemma click_opens_only_this:
  assumes "accordion_inv a" and "i \<in> set (sections a)" and "\<not> p_isOpen (heap a i)"
    and "isMouseClicked e"
  shows "open_sections (AccordionSection_receiveMouse a i e) = filter (\<lambda>j. j = i) (remdups (sections a))"
proof -
  have cb: "onClick (heap a i) = Some SectionDidChange" and m: "\<not> p_multiple a"
    using assms(1,2) by (simp_all add: accordion_inv_def)
  show ?thesis
    unfolding open_sections_def AccordionSection_receiveMouse_def Let_def
    using assms(3,4) cb m
    by (auto simp add: Accordion_sectionDidChange.simps loop_closes sections_def
          intro!: filter_cong)
qed

text \<open>
  C10 (accordion invariant). An accordion constructed with \<open>multiple\<close> unset or false,
  whatever sections exist beside it, has at most one open section after any series of
  section constructions, \<open>addSection\<close> calls of either form and mouse events delivered
  to its sections.
\<close>

theorem accordion_at_most_one_open:
  assumes "multiple \<noteq> Some True"
  shows "length (open_sections (run_ops (Accordion_new multiple h n) ops)) \<le> 1"
proof -
  have "accordion_inv (run_ops (Accordion_new multiple h n) ops)"
    using assms by (intro inv_run_ops inv_new)
  then show ?thesis by (rule inv_open_sections)
qed

lemma example_ops_run:
  "open_sections (run_ops (Accordion_new None (\<lambda>i. AccordionSection_new None) 0) example_ops) = [0]"
  by code_simp

theorem accordion_at_most_one_open_witness:
  "(None :: bool option) \<noteq> Some True
   \<and> length (open_sections
        (run_ops (Accordion_new None (\<lambda>i. AccordionSection_new None) 0) example_ops)) \<le> 1"
  using accordion_at_most_one_open [of None "\<lambda>i. AccordionSection_new None" 0 example_ops]
  by simp

end
